theory Spec2Isabelle
  imports Main "HOL-Library.Word"
begin

unbundle bit_operations_syntax

section \<open>Width constants\<close>

text \<open>
  The source's \<open>Width\<close> object maps \<open>BYTE\<close>, \<open>WYDE\<close>, \<open>TETRA\<close> and \<open>OCTA\<close> to the
  numbers 1, 2, 4 and 8, and \<open>HIGH_TETRA\<close> to the string \<open>'high_tetra'\<close>. A width
  is therefore a number or that one sentinel.
\<close>

datatype Width = Num nat | HIGH_TETRA

abbreviation BYTE :: Width where "BYTE \<equiv> Num 1"
abbreviation WYDE :: Width where "WYDE \<equiv> Num 2"
abbreviation TETRA :: Width where "TETRA \<equiv> Num 4"
abbreviation OCTA :: Width where "OCTA \<equiv> Num 8"

section \<open>Memory64\<close>

text \<open>
  \<open>store\<close> is a JavaScript \<open>Map\<close> from BigInt addresses to BigInt byte values.
  BigInts are unbounded, so both are \<open>int\<close>.
\<close>

record Memory64 =
  store :: "int \<rightharpoonup> int"

definition Memory64_new :: Memory64 where
  "Memory64_new = \<lparr>store = Map.empty\<rparr>"

text \<open>The BigInt operator \<open><<\<close>: a negative amount shifts to the right.\<close>

definition shl :: "int \<Rightarrow> int \<Rightarrow> int" where
  "shl x n = (if 0 \<le> n then push_bit (nat n) x else drop_bit (nat (- n)) x)"

text \<open>
  \<open>alignAddress\<close>: \<open>HIGH_TETRA\<close> is replaced by \<open>TETRA\<close>, then
  \<open>mask = BigInt(width - 1)\<close> and the result is \<open>addr & ~mask\<close>.
\<close>

fun alignAddress :: "int \<Rightarrow> Width \<Rightarrow> int" where
  "alignAddress addr HIGH_TETRA = addr AND NOT (int 4 - 1)"
| "alignAddress addr (Num width) = addr AND NOT (int width - 1)"

definition readByte :: "Memory64 \<Rightarrow> int \<Rightarrow> int" where
  "readByte M addr = (case store M addr of None \<Rightarrow> 0 | Some b \<Rightarrow> b)"

definition writeByte :: "Memory64 \<Rightarrow> int \<Rightarrow> int \<Rightarrow> Memory64" where
  "writeByte M addr val = M\<lparr>store := (store M)(addr \<mapsto> val AND 0xFF)\<rparr>"

definition clear :: "Memory64 \<Rightarrow> Memory64" where
  "clear M = M\<lparr>store := Map.empty\<rparr>"

text \<open>
  \<open>actualWidth\<close> in \<open>read\<close> and \<open>write\<close>: \<open>TETRA\<close> when the width is
  \<open>HIGH_TETRA\<close> or the \<open>highTetra\<close> option is set, the width passed in otherwise.
\<close>

definition actualWidth :: "Width \<Rightarrow> bool \<Rightarrow> nat" where
  "actualWidth width highTetra =
     (case width of HIGH_TETRA \<Rightarrow> 4 | Num n \<Rightarrow> if highTetra then 4 else n)"

definition signExtend :: "int \<Rightarrow> nat \<Rightarrow> int" where
  "signExtend val width =
     (let bits = width * 8;
          signBit = shl 1 (int bits - 1)
      in if val AND signBit \<noteq> 0
         then (let mask = push_bit bits 1 - 1 in val OR NOT mask)
         else val)"

text \<open>
  The loop of \<open>read\<close>, \<open>for (i = 0; i < actualWidth; i++)\<close>, is a fold over
  \<open>[0..<actualWidth]\<close> with the accumulator \<open>result\<close>.
\<close>

definition read_loop :: "Memory64 \<Rightarrow> int \<Rightarrow> nat \<Rightarrow> int" where
  "read_loop M alignedAddr n =
     fold (\<lambda>i result. push_bit 8 result OR readByte M (alignedAddr + int i)) [0..<n] 0"

definition read :: "Memory64 \<Rightarrow> int \<Rightarrow> Width \<Rightarrow> bool \<Rightarrow> bool \<Rightarrow> int" where
  "read M addr width sign highTetra =
     (let aw = actualWidth width highTetra;
          alignedAddr = alignAddress addr (Num aw);
          result = read_loop M alignedAddr aw
      in if width = HIGH_TETRA \<or> highTetra then push_bit 32 result
         else if sign then signExtend result aw
         else result)"

text \<open>
  The loop of \<open>write\<close>, \<open>for (i = actualWidth - 1; i >= 0; i--)\<close>, is a fold over
  the indices in descending order; its state is the store and what is left of the value.
\<close>

definition write_step :: "int \<Rightarrow> nat \<Rightarrow> Memory64 \<times> int \<Rightarrow> Memory64 \<times> int" where
  "write_step alignedAddr i s =
     (case s of (M, actualValue) \<Rightarrow>
        (let byte = actualValue AND 0xFF
         in (writeByte M (alignedAddr + int i) byte, drop_bit 8 actualValue)))"

definition write_loop :: "Memory64 \<Rightarrow> int \<Rightarrow> nat \<Rightarrow> int \<Rightarrow> Memory64" where
  "write_loop M alignedAddr n actualValue =
     fst (fold (write_step alignedAddr) (rev [0..<n]) (M, actualValue))"

text \<open>\<open>write\<close> of the source; the name is a keyword of Isabelle, hence the suffix.\<close>

definition write_mem :: "Memory64 \<Rightarrow> int \<Rightarrow> Width \<Rightarrow> int \<Rightarrow> bool \<Rightarrow> Memory64" where
  "write_mem M addr width val highTetra =
     (let aw = actualWidth width highTetra;
          actualValue = (if width = HIGH_TETRA \<or> highTetra then drop_bit 32 val else val);
          alignedAddr = alignAddress addr (Num aw);
          mask = push_bit (aw * 8) 1 - 1
      in write_loop M alignedAddr aw (actualValue AND mask))"

section \<open>Formatting helpers\<close>

text \<open>
  \<open>BigInt.prototype.toString(radix)\<close> of the language: the digits of the magnitude,
  most significant first, lower case, after a minus sign for a negative value. The source
  calls it with the radices 10 and 16 only; the language accepts the radices 2 to 36 and
  rejects every other, so the first branch of \<open>digits\<close> is the last digit for those.
\<close>

definition digit_char :: "nat \<Rightarrow> char" where
  "digit_char d = ''0123456789abcdefghijklmnopqrstuvwxyz'' ! d"

function digits :: "nat \<Rightarrow> nat \<Rightarrow> string" where
  "digits radix n =
     (if n < radix \<or> radix < 2 then [digit_char n]
      else digits radix (n div radix) @ [digit_char (n mod radix)])"
  by pat_completeness auto
termination
  by (relation "measure (\<lambda>(radix, n). n)") auto

declare digits.simps [simp del]

definition toString :: "int \<Rightarrow> nat \<Rightarrow> string" where
  "toString v radix =
     (if v < 0 then ''-'' @ digits radix (nat (- v)) else digits radix (nat v))"

text \<open>\<open>toUpperCase\<close> on the characters \<open>toString\<close> produces: the letters a to z.\<close>

definition toUpperCase :: "string \<Rightarrow> string" where
  "toUpperCase s =
     map (\<lambda>c. case map_of (zip ''abcdefghijklmnopqrstuvwxyz'' ''ABCDEFGHIJKLMNOPQRSTUVWXYZ'') c of
                Some C \<Rightarrow> C
              | None \<Rightarrow> c) s"

definition padStart :: "string \<Rightarrow> nat \<Rightarrow> char \<Rightarrow> string" where
  "padStart s targetLength c = replicate (targetLength - length s) c @ s"

text \<open>
  The \<open>k\<close> positional digits of \<open>n\<close> in radix \<open>r\<close>, most significant first: what
  \<open>toString\<close> followed by \<open>padStart\<close> with zeros is compared with.
\<close>

definition digit_row :: "nat \<Rightarrow> nat \<Rightarrow> nat \<Rightarrow> string" where
  "digit_row r k n = map (\<lambda>i. digit_char (n div r ^ (k - 1 - i) mod r)) [0..<k]"

definition formatHex :: "int \<Rightarrow> nat \<Rightarrow> string" where
  "formatHex val ndigits =
     (let val = (if val < 0 then push_bit 64 1 + val else val)
      in padStart (toUpperCase (toString val 16)) ndigits (CHR ''0''))"

definition formatSigned :: "int \<Rightarrow> string" where
  "formatSigned val =
     (if val AND push_bit 63 1 \<noteq> 0 then toString (val - push_bit 64 1) 10
      else toString val 10)"

definition readOctaHex :: "Memory64 \<Rightarrow> int \<Rightarrow> string" where
  "readOctaHex M addr = formatHex (read M addr OCTA False False) 16"

section \<open>The machine\<close>

text \<open>
  The table of special registers, in the order of the source.
\<close>

definition SpecialReg :: "(string \<times> nat) list" where
  "SpecialReg =
     [(''rA'', 21), (''rB'', 0), (''rC'', 8), (''rD'', 1), (''rE'', 2), (''rF'', 22),
      (''rG'', 19), (''rH'', 3), (''rI'', 12), (''rJ'', 4), (''rK'', 15), (''rL'', 20),
      (''rM'', 5), (''rN'', 9), (''rO'', 10), (''rP'', 23), (''rQ'', 16), (''rR'', 6),
      (''rS'', 11), (''rT'', 13), (''rU'', 17), (''rV'', 18), (''rW'', 24), (''rX'', 25),
      (''rY'', 26), (''rZ'', 27), (''rBB'', 7), (''rTT'', 14), (''rWW'', 28),
      (''rXX'', 29), (''rYY'', 30), (''rZZ'', 31)]"

text \<open>
  \<open>SpecialReg\<close> is an object literal, so the operator \<open>in\<close> also finds the property
  names it inherits from \<open>Object.prototype\<close>. These are the names the language gives
  that prototype; their values are functions (an object for \<open>__proto__\<close>), not numbers.
\<close>

definition Object_prototype_keys :: "string list" where
  "Object_prototype_keys =
     [''constructor'', ''__defineGetter__'', ''__defineSetter__'', ''hasOwnProperty'',
      ''__lookupGetter__'', ''__lookupSetter__'', ''isPrototypeOf'',
      ''propertyIsEnumerable'', ''toString'', ''valueOf'', ''__proto__'',
      ''toLocaleString'']"

text \<open>
  Error conditions. The source has a single \<open>throw\<close>, in \<open>getRegByName\<close>, of an
  \<open>Error\<close> with the message \<open>Unknown register: <name>\<close>. \<open>OutOfRangeIndex\<close> is the
  name the specification gives to a failed index check. \<open>RangeError\<close>, \<open>TypeError\<close>
  and \<open>SyntaxError\<close> are the errors the language raises when the conversion
  \<open>BigInt(value)\<close> in the setters rejects its argument.
\<close>

datatype error =
  OutOfRangeIndex | UnknownRegister string | RangeError | TypeError | SyntaxError

text \<open>
  What reading an element of a \<open>BigUint64Array\<close> gives: a 64-bit value, or
  \<open>undefined\<close> when the index is not an index of the array.
\<close>

datatype jsval = Undefined | BigInt "64 word"

text \<open>
  A Number used as an index: an integer, or \<open>NaN\<close> (what \<open>parseInt\<close> returns when
  it finds no digit). \<open>parseInt\<close> rounds an integer beyond \<open>2^53\<close> to a double, up
  to \<open>Infinity\<close>; such a value is used here only as an index into an array of at most 256
  elements, where it is out of range rounded or not, so the exact integer stands for it.
\<close>

datatype number = Number int | NaN

text \<open>Element access of a typed array: \<open>arr[index]\<close> and \<open>arr[index] = v\<close>.\<close>

definition typed_get :: "64 word list \<Rightarrow> number \<Rightarrow> jsval" where
  "typed_get arr index =
     (case index of
        Number i \<Rightarrow> if 0 \<le> i \<and> i < int (length arr) then BigInt (arr ! nat i) else Undefined
      | NaN \<Rightarrow> Undefined)"

definition typed_set :: "64 word list \<Rightarrow> number \<Rightarrow> int \<Rightarrow> 64 word list" where
  "typed_set arr index v =
     (case index of
        Number i \<Rightarrow> if 0 \<le> i \<and> i < int (length arr) then arr[nat i := word_of_int v] else arr
      | NaN \<Rightarrow> arr)"

definition fill :: "64 word list \<Rightarrow> int \<Rightarrow> 64 word list" where
  "fill arr v = map (\<lambda>_. word_of_int v) arr"

record MMIX =
  mem :: Memory64
  reg :: "64 word list"
  sreg :: "64 word list"
  pc :: int

definition MMIX_new :: MMIX where
  "MMIX_new = \<lparr>mem = Memory64_new, reg = replicate 256 0, sreg = replicate 32 0, pc = 0\<rparr>"

definition getReg :: "MMIX \<Rightarrow> number \<Rightarrow> error + jsval" where
  "getReg m index = Inr (typed_get (reg m) index)"

definition getSpecialReg :: "MMIX \<Rightarrow> number \<Rightarrow> error + jsval" where
  "getSpecialReg m index = Inr (typed_get (sreg m) index)"

text \<open>
  \<open>parseInt(string, 10)\<close> of the language: leading white space is skipped, then an
  optional sign, then the longest run of decimal digits is read; whatever follows is
  ignored, and no digit at all gives \<open>NaN\<close>. Characters are the code units below 256.
\<close>

definition isWhiteSpace :: "char \<Rightarrow> bool" where
  "isWhiteSpace c = ((of_char c :: nat) \<in> {9, 10, 11, 12, 13, 32, 160})"

definition isDigit :: "char \<Rightarrow> bool" where
  "isDigit c = (48 \<le> (of_char c :: nat) \<and> (of_char c :: nat) \<le> 57)"

definition digitVal :: "char \<Rightarrow> nat" where
  "digitVal c = of_char c - 48"

definition parseInt :: "string \<Rightarrow> number" where
  "parseInt inputString =
     (let S = dropWhile isWhiteSpace inputString;
          sign = (if S \<noteq> [] \<and> hd S = CHR ''-'' then - 1 else 1);
          S = (if S \<noteq> [] \<and> (hd S = CHR ''+'' \<or> hd S = CHR ''-'') then tl S else S);
          Z = takeWhile isDigit S
      in if Z = [] then NaN
         else Number (sign * int (foldl (\<lambda>n c. 10 * n + digitVal c) 0 Z)))"

definition startsWith :: "string \<Rightarrow> string \<Rightarrow> bool" where
  "startsWith s p = (take (length p) s = p)"

definition slice :: "string \<Rightarrow> nat \<Rightarrow> string" where
  "slice s start = drop start s"

text \<open>
  The values a caller can pass to a setter. \<open>BigInt(value)\<close> converts an object by
  running its \<open>valueOf\<close> or \<open>toString\<close> first, code of the caller that can do anything,
  so a value is one of the primitive values of the language. A Number is either an
  integer or not (a fraction such as 1.5, \<open>NaN\<close>, an infinity).
\<close>

datatype jsvalue =
  VUndefined | VNull | VBoolean bool | VInteger int | VNonInteger
  | VBigInt int | VString string | VSymbol

text \<open>
  \<open>StringToBigInt\<close> of the language: white space is trimmed at both ends; the empty
  string is 0; otherwise the text is a run of decimal digits after an optional sign, or
  a run of hexadecimal, octal or binary digits after \<open>0x\<close>, \<open>0o\<close> or \<open>0b\<close> (in
  either case, without sign); anything else is no integer literal.
\<close>

definition hexVal :: "char \<Rightarrow> nat option" where
  "hexVal c =
     (let k = (of_char c :: nat)
      in if 48 \<le> k \<and> k \<le> 57 then Some (k - 48)
         else if 97 \<le> k \<and> k \<le> 102 then Some (k - 87)
         else if 65 \<le> k \<and> k \<le> 70 then Some (k - 55)
         else None)"

definition digitIn :: "nat \<Rightarrow> char \<Rightarrow> nat option" where
  "digitIn radix c =
     (case hexVal c of Some d \<Rightarrow> if d < radix then Some d else None | None \<Rightarrow> None)"

definition parseDigits :: "nat \<Rightarrow> string \<Rightarrow> int option" where
  "parseDigits radix ds =
     (if ds \<noteq> [] \<and> list_all (\<lambda>c. digitIn radix c \<noteq> None) ds
      then Some (int (foldl (\<lambda>n c. radix * n + the (digitIn radix c)) 0 ds))
      else None)"

definition trimString :: "string \<Rightarrow> string" where
  "trimString s = rev (dropWhile isWhiteSpace (rev (dropWhile isWhiteSpace s)))"

definition StringToBigInt :: "string \<Rightarrow> int option" where
  "StringToBigInt str =
     (let t = trimString str
      in if t = [] then Some 0
         else if take 2 t = ''0x'' \<or> take 2 t = ''0X'' then parseDigits 16 (drop 2 t)
         else if take 2 t = ''0o'' \<or> take 2 t = ''0O'' then parseDigits 8 (drop 2 t)
         else if take 2 t = ''0b'' \<or> take 2 t = ''0B'' then parseDigits 2 (drop 2 t)
         else if hd t = CHR ''-'' then map_option uminus (parseDigits 10 (tl t))
         else if hd t = CHR ''+'' then parseDigits 10 (tl t)
         else parseDigits 10 t)"

text \<open>
  \<open>BigInt(value)\<close> of the language, on a primitive value: a BigInt is returned as it is,
  an integral Number and a boolean are converted, a string is parsed; a Number that is no
  integer raises \<open>RangeError\<close>, a string that is no integer literal \<open>SyntaxError\<close>,
  and \<open>undefined\<close>, \<open>null\<close> and a symbol \<open>TypeError\<close>.
\<close>

fun BigInt_of :: "jsvalue \<Rightarrow> error + int" where
  "BigInt_of VUndefined = Inl TypeError"
| "BigInt_of VNull = Inl TypeError"
| "BigInt_of (VBoolean b) = Inr (if b then 1 else 0)"
| "BigInt_of (VInteger n) = Inr n"
| "BigInt_of VNonInteger = Inl RangeError"
| "BigInt_of (VBigInt n) = Inr n"
| "BigInt_of (VString s) =
     (case StringToBigInt s of None \<Rightarrow> Inl SyntaxError | Some n \<Rightarrow> Inr n)"
| "BigInt_of VSymbol = Inl TypeError"

text \<open>
  The setters evaluate \<open>BigInt(value) & ((1n << 64n) - 1n)\<close> first, which raises what the
  conversion raises, and store the result afterwards.
\<close>

definition setReg :: "MMIX \<Rightarrow> number \<Rightarrow> jsvalue \<Rightarrow> error + MMIX" where
  "setReg m index val =
     (case BigInt_of val of
        Inl e \<Rightarrow> Inl e
      | Inr b \<Rightarrow> Inr (m\<lparr>reg := typed_set (reg m) index (b AND (push_bit 64 1 - 1))\<rparr>))"

definition setSpecialReg :: "MMIX \<Rightarrow> number \<Rightarrow> jsvalue \<Rightarrow> error + MMIX" where
  "setSpecialReg m index val =
     (case BigInt_of val of
        Inl e \<Rightarrow> Inl e
      | Inr b \<Rightarrow> Inr (m\<lparr>sreg := typed_set (sreg m) index (b AND (push_bit 64 1 - 1))\<rparr>))"

text \<open>
  \<open>getRegByName\<close>. \<open>name in SpecialReg\<close> holds for the names of the table and for the
  inherited ones; for an inherited name \<open>SpecialReg[name]\<close> is a function, which is no
  index of \<open>sreg\<close>, so that \<open>this.sreg[...]\<close> is \<open>undefined\<close>.
\<close>

definition getRegByName :: "MMIX \<Rightarrow> string \<Rightarrow> error + jsval" where
  "getRegByName m name =
     (if startsWith name ''$'' then
        (let index = parseInt (slice name 1) in getReg m index)
      else
        (case map_of SpecialReg name of
           Some index \<Rightarrow> getSpecialReg m (Number (int index))
         | None \<Rightarrow>
             if name \<in> set Object_prototype_keys then Inr Undefined
             else Inl (UnknownRegister name)))"

definition reset :: "MMIX \<Rightarrow> MMIX" where
  "reset m = m\<lparr>mem := clear (mem m), reg := fill (reg m) 0, sreg := fill (sreg m) 0, pc := 0\<rparr>"

text \<open>
  The machine states a caller can reach from a new machine: by the register setters, by
  the operations of the memory store, by assigning the program counter and by
  \<open>reset\<close>.
\<close>

inductive reachable :: "MMIX \<Rightarrow> bool" where
  by_new: "reachable MMIX_new"
| by_setReg: "reachable m \<Longrightarrow> setReg m index val = Inr m' \<Longrightarrow> reachable m'"
| by_setSpecialReg: "reachable m \<Longrightarrow> setSpecialReg m index val = Inr m' \<Longrightarrow> reachable m'"
| by_write: "reachable m \<Longrightarrow> reachable (m\<lparr>mem := write_mem (mem m) addr width val highTetra\<rparr>)"
| by_writeByte: "reachable m \<Longrightarrow> reachable (m\<lparr>mem := writeByte (mem m) addr val\<rparr>)"
| by_clear: "reachable m \<Longrightarrow> reachable (m\<lparr>mem := clear (mem m)\<rparr>)"
| by_pc: "reachable m \<Longrightarrow> reachable (m\<lparr>pc := val\<rparr>)"
| by_reset: "reachable m \<Longrightarrow> reachable (reset m)"

text \<open>Every byte of a store is a value from 0 to 255: what \<open>writeByte\<close> maintains.\<close>

definition byte_store :: "Memory64 \<Rightarrow> bool" where
  "byte_store M = (\<forall>a b. store M a = Some b \<longrightarrow> 0 \<le> b \<and> b < 256)"

section \<open>Memory: what the loops store and decode\<close>

lemma write_loop_Suc:
  "write_loop M a (Suc n) v = write_loop (writeByte M (a + int n) (v AND 0xFF)) a n (drop_bit 8 v)"
  by (simp add: write_loop_def write_step_def)

lemma readByte_writeByte:
  "readByte (writeByte M a v) b = (if b = a then v AND 0xFF else readByte M b)"
  by (simp add: readByte_def writeByte_def)

lemma readByte_write_loop:
  "readByte (write_loop M a n v) b =
     (if a \<le> b \<and> b < a + int n then drop_bit (8 * (n - 1 - nat (b - a))) v AND 0xFF
      else readByte M b)"
proof (induction n arbitrary: M v)
  case 0
  then show ?case by (simp add: write_loop_def)
next
  case (Suc n)
  have step: "readByte (write_loop M a (Suc n) v) b =
     (if a \<le> b \<and> b < a + int n then drop_bit (8 * (n - 1 - nat (b - a))) (drop_bit 8 v) AND 0xFF
      else if b = a + int n then v AND 0xFF else readByte M b)"
    by (simp add: write_loop_Suc Suc readByte_writeByte and.assoc)
  consider (low) "a \<le> b" "b < a + int n" | (top) "b = a + int n" | (out) "b < a \<or> a + int n < b"
    by linarith
  then show ?case
  proof cases
    case low
    then have "8 * (n - 1 - nat (b - a)) + 8 = 8 * (Suc n - 1 - nat (b - a))"
      by simp
    with low show ?thesis
      unfolding step by (simp add: add.commute)
  next
    case top
    then show ?thesis
      unfolding step by simp
  next
    case out
    then show ?thesis
      unfolding step by auto
  qed
qed

lemma and_255: "(x::int) AND 0xFF = take_bit 8 x"
  by (simp add: take_bit_eq_mask mask_eq_exp_minus_1)

lemma take_bit_step:
  "push_bit 8 (take_bit (8 * n) (drop_bit 8 v)) OR take_bit 8 v = take_bit (8 * Suc n) (v::int)"
  by (rule bit_eqI) (auto simp add: bit_simps)

lemma read_loop_Suc:
  "read_loop M a (Suc n) = push_bit 8 (read_loop M a n) OR readByte M (a + int n)"
  by (simp add: read_loop_def)

lemma read_loop_bytes:
  "(\<And>k. k < n \<Longrightarrow> readByte M (a + int k) = drop_bit (8 * (n - 1 - k)) v AND 0xFF)
    \<Longrightarrow> read_loop M a n = take_bit (8 * n) v"
proof (induction n arbitrary: v)
  case 0
  then show ?case by (simp add: read_loop_def)
next
  case (Suc n)
  have "read_loop M a n = take_bit (8 * n) (drop_bit 8 v)"
  proof (rule Suc.IH)
    fix k assume "k < n"
    then have "8 * (n - 1 - k) + 8 = 8 * (Suc n - 1 - k)" by simp
    with Suc.prems [of k] \<open>k < n\<close>
    show "readByte M (a + int k) = drop_bit (8 * (n - 1 - k)) (drop_bit 8 v) AND 0xFF"
      by (simp add: add.commute)
  qed
  moreover have "readByte M (a + int n) = take_bit 8 v"
    using Suc.prems [of n] by (simp add: and_255)
  ultimately show ?case
    by (simp only: read_loop_Suc take_bit_step)
qed

lemma mask_push: "push_bit n (1::int) - 1 = mask n"
  by (simp add: mask_eq_exp_minus_1)

lemma read_write_loop:
  "read_loop (write_loop M a n v) a n = take_bit (8 * n) v"
  by (rule read_loop_bytes) (simp add: readByte_write_loop)

lemma readByte_outside_write:
  "b < alignAddress A (Num (actualWidth W ht)) \<or> alignAddress A (Num (actualWidth W ht)) + int (actualWidth W ht) \<le> b
   \<Longrightarrow> readByte (write_mem M A W V ht) b = readByte M b"
  by (auto simp add: write_mem_def Let_def readByte_write_loop)

lemma and_not_mask_int: "(A::int) AND NOT (mask j) = A - A mod 2 ^ j"
proof -
  have "A AND NOT (mask j) = push_bit j (drop_bit j A)"
    by (rule bit_eqI) (auto simp add: bit_simps)
  also have "\<dots> = A - A mod 2 ^ j"
    by (simp add: push_bit_eq_mult drop_bit_eq_div minus_mod_eq_mult_div)
  finally show ?thesis .
qed

lemma alignAddress_pow2: "alignAddress A (Num (2 ^ j)) = A - A mod 2 ^ j"
  using and_not_mask_int [of A j] by (simp add: mask_eq_exp_minus_1)

section \<open>Signed values\<close>

lemma sint_64: "sint (w :: 64 word) = (if bit (uint w) 63 then uint w - 2 ^ 64 else uint w)"
proof -
  have "take_bit 64 (uint w) = uint w"
    by (rule take_bit_int_eq_self) (use uint_lt2p [of w] in simp_all)
  then show ?thesis
    by (simp add: sint_uint signed_take_bit_eq_take_bit_minus)
qed

lemma formatSigned_uint: "formatSigned (uint (w :: 64 word)) = toString (sint w) 10"
  unfolding formatSigned_def bit_iff_and_push_bit_not_eq_0 [symmetric]
  by (simp add: sint_64)

lemma formatHex_sint: "formatHex (sint (w :: 64 word)) n = formatHex (uint w) n"
proof (cases "bit (uint w) 63")
  case True
  have "uint w < 2 ^ 64" using uint_lt2p [of w] by simp
  with True show ?thesis by (simp add: formatHex_def sint_64)
next
  case False
  then show ?thesis by (simp add: formatHex_def sint_64)
qed

lemma readByte_range: "byte_store M \<Longrightarrow> take_bit 8 (readByte M a) = readByte M a"
  by (auto simp add: byte_store_def readByte_def take_bit_int_eq_self split: option.splits)

lemma read_loop_range: "byte_store M \<Longrightarrow> take_bit (8 * n) (read_loop M a n) = read_loop M a n"
proof (induction n)
  case 0
  then show ?case by (simp add: read_loop_def)
next
  case (Suc n)
  have "take_bit (8 * Suc n) (push_bit 8 (take_bit (8 * n) (read_loop M a n)) OR take_bit 8 (readByte M (a + int n)))
      = push_bit 8 (take_bit (8 * n) (read_loop M a n)) OR take_bit 8 (readByte M (a + int n))"
    by (rule bit_eqI) (auto simp add: bit_simps)
  with Suc show ?case
    by (simp add: read_loop_Suc readByte_range)
qed

lemma or_not_mask: "take_bit m (u::int) OR NOT (mask m) = take_bit m u - 2 ^ m"
proof -
  have "take_bit m u - 2 ^ m = take_bit m u + NOT (mask m)"
    by (simp add: minus_exp_eq_not_mask)
  also have "\<dots> = take_bit m u OR NOT (mask m)"
    by (rule disjunctive_add_eq_or) (simp add: bit_eq_iff bit_simps)
  finally show ?thesis by simp
qed

lemma signExtend_signed:
  assumes "take_bit (8 * n) u = u" "0 < n"
  shows "signExtend u n = (if bit u (8 * n - 1) then u - 2 ^ (8 * n) else u)"
proof -
  from assms(2) have sb: "shl 1 (int (n * 8) - 1) = push_bit (8 * n - 1) 1"
    by (simp add: shl_def nat_diff_distrib mult.commute)
  have "u OR NOT (mask (8 * n)) = u - 2 ^ (8 * n)"
    using or_not_mask [of "8 * n" u] assms(1) by simp
  then show ?thesis
    unfolding signExtend_def Let_def sb bit_iff_and_push_bit_not_eq_0 [symmetric] mask_push
    by (simp add: mult.commute)
qed

section \<open>Invariants of the store and of the machine\<close>

lemma byte_store_new: "byte_store Memory64_new"
  by (simp add: byte_store_def Memory64_new_def)

lemma byte_store_clear: "byte_store (clear M)"
  by (simp add: byte_store_def clear_def)

lemma and_255_range: "0 \<le> (v::int) AND 0xFF \<and> v AND 0xFF < 256"
  using take_bit_int_less_exp [of 8 v] by (simp add: and_255)

lemma byte_store_writeByte: "byte_store M \<Longrightarrow> byte_store (writeByte M a v)"
  using and_255_range [of v] by (auto simp add: byte_store_def writeByte_def)

lemma byte_store_write_loop: "byte_store M \<Longrightarrow> byte_store (write_loop M a n v)"
  by (induction n arbitrary: M v) (simp_all add: write_loop_Suc byte_store_writeByte, simp add: write_loop_def)

lemma byte_store_write_mem: "byte_store M \<Longrightarrow> byte_store (write_mem M a w v ht)"
  by (simp add: write_mem_def Let_def byte_store_write_loop)

lemma length_typed_set: "length (typed_set arr i v) = length arr"
  by (simp add: typed_set_def split: number.splits)

lemma reachable_inv:
  "reachable m \<Longrightarrow> length (reg m) = 256 \<and> length (sreg m) = 32 \<and> byte_store (mem m)"
proof (induction rule: reachable.induct)
  case by_new
  then show ?case by (simp add: MMIX_new_def byte_store_new)
next
  case (by_setReg m index val m')
  then show ?case by (auto simp add: setReg_def length_typed_set split: sum.splits)
next
  case (by_setSpecialReg m index val m')
  then show ?case by (auto simp add: setSpecialReg_def length_typed_set split: sum.splits)
next
  case (by_write m addr width val highTetra)
  then show ?case by (simp add: byte_store_write_mem)
next
  case (by_writeByte m addr val)
  then show ?case by (simp add: byte_store_writeByte)
next
  case (by_clear m)
  then show ?case by (simp add: byte_store_clear)
next
  case (by_pc m val)
  then show ?case by simp
next
  case (by_reset m)
  then show ?case by (simp add: reset_def fill_def byte_store_clear)
qed

lemma reset_reachable: "reachable m \<Longrightarrow> reset m = MMIX_new"
  using reachable_inv [of m]
  by (simp add: reset_def MMIX_new_def fill_def clear_def Memory64_new_def map_replicate_const)

section \<open>Decimal digits and \<open>parseInt\<close>\<close>

lemma digits_less: "n < radix \<Longrightarrow> digits radix n = [digit_char n]"
  by (subst digits.simps) simp

lemma digits_step:
  "\<not> n < radix \<Longrightarrow> 2 \<le> radix \<Longrightarrow>
   digits radix n = digits radix (n div radix) @ [digit_char (n mod radix)]"
  by (subst digits.simps) simp

lemmas format_eval =
  formatHex_def formatSigned_def toString_def padStart_def toUpperCase_def
  digits_less digits_step digit_char_def

lemma digit_char_dec: "d < 10 \<Longrightarrow> (of_char (digit_char d) :: nat) = 48 + d"
proof -
  assume "d < 10"
  then have "d \<in> {0, 1, 2, 3, 4, 5, 6, 7, 8, 9}" by auto
  then show ?thesis by (auto simp add: digit_char_def)
qed

lemma digit_char_props:
  assumes "d < 10"
  shows "isDigit (digit_char d)" "\<not> isWhiteSpace (digit_char d)" "digitVal (digit_char d) = d"
    "digit_char d \<noteq> CHR ''+''" "digit_char d \<noteq> CHR ''-''"
  using digit_char_dec [OF assms] assms
  by (auto simp add: isDigit_def isWhiteSpace_def digitVal_def)

lemma digits_dec:
  "digits 10 k \<noteq> [] \<and> (\<forall>c \<in> set (digits 10 k). \<exists>d < 10. c = digit_char d)
   \<and> foldl (\<lambda>n c. 10 * n + digitVal c) 0 (digits 10 k) = k"
proof (induction "10::nat" k rule: digits.induct)
  case (1 n)
  show ?case
  proof (cases "n < 10")
    case True
    then show ?thesis
      by (subst (1 2 3) digits.simps) (auto simp add: digit_char_props)
  next
    case False
    with 1 have IH: "digits 10 (n div 10) \<noteq> []"
      "\<forall>c \<in> set (digits 10 (n div 10)). \<exists>d < 10. c = digit_char d"
      "foldl (\<lambda>n c. 10 * n + digitVal c) 0 (digits 10 (n div 10)) = n div 10"
      by simp_all
    have eq: "digits 10 n = digits 10 (n div 10) @ [digit_char (n mod 10)]"
      using False by (subst digits.simps) simp
    have m: "n mod 10 < 10" by simp
    then have "\<exists>d<10. digit_char (n mod 10) = digit_char d" by blast
    with m show ?thesis
      unfolding eq using IH
      by (auto simp add: digit_char_props simp del: One_nat_def)
  qed
qed

lemma parseInt_digits: "parseInt (digits 10 k) = Number (int k)"
proof -
  from digits_dec [of k] obtain c cs where cs: "digits 10 k = c # cs"
    by (cases "digits 10 k") auto
  with digits_dec [of k] obtain d where d: "d < 10" "c = digit_char d"
    by auto
  have all: "\<forall>x \<in> set (digits 10 k). isDigit x"
    using digits_dec [of k] by (auto simp add: digit_char_props)
  have dw: "dropWhile isWhiteSpace (digits 10 k) = digits 10 k"
    using cs d by (simp add: digit_char_props)
  have tw: "takeWhile isDigit (digits 10 k) = digits 10 k"
    using all by (simp add: takeWhile_eq_all_conv)
  have hd: "hd (digits 10 k) \<noteq> CHR ''+''" "hd (digits 10 k) \<noteq> CHR ''-''" "digits 10 k \<noteq> []"
    using cs d by (simp_all add: digit_char_props)
  show ?thesis
    unfolding parseInt_def dw Let_def using hd digits_dec [of k]
    by (simp add: tw)
qed

section \<open>Claims about the memory store\<close>

lemma byte_of_masked:
  "j + 8 \<le> m \<Longrightarrow> drop_bit j (v AND (push_bit m 1 - 1)) AND 0xFF = drop_bit j (v::int) AND 0xFF"
  unfolding mask_push and_255
  by (rule bit_eqI) (auto simp add: bit_simps)

lemma readByte_write_octa:
  "k < 8 \<Longrightarrow> readByte (write_mem M A OCTA V False) (alignAddress A OCTA + int k)
     = drop_bit (8 * (7 - k)) V AND 0xFF"
proof -
  assume k: "k < 8"
  have "drop_bit (8 * (7 - k)) (V AND (push_bit (8 * 8) 1 - 1)) AND 0xFF
      = drop_bit (8 * (7 - k)) V AND 0xFF"
    by (rule byte_of_masked) (use k in simp)
  with k show ?thesis
    by (simp add: write_mem_def actualWidth_def Let_def readByte_write_loop)
qed

text \<open>
  C4. Round trip: for each of the widths \<open>BYTE\<close>, \<open>WYDE\<close>, \<open>TETRA\<close> and
  \<open>OCTA\<close>, every value \<open>V\<close>, every address \<open>A\<close> and every store,
  \<open>write(A, W, V)\<close> followed by an unsigned \<open>read(A, W)\<close> returns \<open>V\<close> masked to
  its low \<open>W * 8\<close> bits.
\<close>

theorem write_read_roundtrip:
  "Num n \<in> {BYTE, WYDE, TETRA, OCTA} \<Longrightarrow>
   read (write_mem M A (Num n) V False) A (Num n) False False = V AND (2 ^ (n * 8) - 1)"
  by (simp add: read_def write_mem_def actualWidth_def Let_def read_write_loop mask_push
        flip: take_bit_eq_mask mask_eq_exp_minus_1 add: mult.commute)

text \<open>The round trip at a wyde written to the unaligned address 1001.\<close>

theorem write_read_roundtrip_witness:
  "WYDE \<in> {BYTE, WYDE, TETRA, OCTA} \<and>
   read (write_mem Memory64_new 1001 WYDE 0xFFFFFFFFFFFF1234 False) 1001 WYDE False False = 0x1234"
  using write_read_roundtrip [of 2 Memory64_new 1001 "0xFFFFFFFFFFFF1234"]
  by simp

text \<open>
  C6, as stated, fails at an address that is not a multiple of 8: \<open>write\<close> rounds the
  address 1001 down to 1000, so that \<open>readByte(1001)\<close> is the second byte of the value,
  not its most significant one.
\<close>

theorem octa_bytes_counterexample:
  "readByte (write_mem Memory64_new 1001 OCTA 0x0123456789ABCDEF False) (1001 + 0)
     \<noteq> drop_bit (8 * 7) 0x0123456789ABCDEF AND 0xFF"
  by (simp add: write_mem_def actualWidth_def Let_def readByte_write_loop)

text \<open>
  C6, amended. \<open>write(A, OCTA, V)\<close> stores the eight bytes of \<open>V\<close>, most
  significant first, at the addresses \<open>alignAddress(A, OCTA) + k\<close> for \<open>k\<close> from 0 to
  7, where \<open>alignAddress(A, OCTA)\<close> is \<open>A\<close> rounded down to a multiple of 8 (and is
  \<open>A\<close> itself when \<open>A\<close> is such a multiple).
\<close>

theorem octa_bytes_big_endian:
  "k < 8 \<Longrightarrow>
   alignAddress A OCTA = A - A mod 8 \<and>
   readByte (write_mem M A OCTA V False) (A - A mod 8 + int k) = drop_bit (8 * (7 - k)) V AND 0xFF"
  using readByte_write_octa [of k M A V] alignAddress_pow2 [of A 3]
  by simp

text \<open>The example of the specification: the octabyte \<open>0x0123456789ABCDEF\<close> at 1000.\<close>

theorem octa_bytes_big_endian_witness:
  "readByte (write_mem Memory64_new 1000 OCTA 0x0123456789ABCDEF False) 1000 = 0x01 \<and>
   readByte (write_mem Memory64_new 1000 OCTA 0x0123456789ABCDEF False) 1001 = 0x23 \<and>
   readByte (write_mem Memory64_new 1000 OCTA 0x0123456789ABCDEF False) 1002 = 0x45 \<and>
   readByte (write_mem Memory64_new 1000 OCTA 0x0123456789ABCDEF False) 1003 = 0x67 \<and>
   readByte (write_mem Memory64_new 1000 OCTA 0x0123456789ABCDEF False) 1004 = 0x89 \<and>
   readByte (write_mem Memory64_new 1000 OCTA 0x0123456789ABCDEF False) 1005 = 0xAB \<and>
   readByte (write_mem Memory64_new 1000 OCTA 0x0123456789ABCDEF False) 1006 = 0xCD \<and>
   readByte (write_mem Memory64_new 1000 OCTA 0x0123456789ABCDEF False) 1007 = 0xEF"
  using octa_bytes_big_endian [of 0 1000 Memory64_new "0x0123456789ABCDEF"]
    octa_bytes_big_endian [of 1 1000 Memory64_new "0x0123456789ABCDEF"]
    octa_bytes_big_endian [of 2 1000 Memory64_new "0x0123456789ABCDEF"]
    octa_bytes_big_endian [of 3 1000 Memory64_new "0x0123456789ABCDEF"]
    octa_bytes_big_endian [of 4 1000 Memory64_new "0x0123456789ABCDEF"]
    octa_bytes_big_endian [of 5 1000 Memory64_new "0x0123456789ABCDEF"]
    octa_bytes_big_endian [of 6 1000 Memory64_new "0x0123456789ABCDEF"]
    octa_bytes_big_endian [of 7 1000 Memory64_new "0x0123456789ABCDEF"]
  by simp

text \<open>
  C9. Frame of a write: with \<open>E\<close> the effective width (4 for a high-tetra access, the
  width passed in otherwise), \<open>readByte\<close> at every address outside
  \<open>alignAddress(A, E) .. alignAddress(A, E) + E - 1\<close> returns after the write what it
  returned before.
\<close>

theorem write_frame:
  "E = actualWidth W highTetra \<Longrightarrow>
   a < alignAddress A (Num E) \<or> alignAddress A (Num E) + int E \<le> a \<Longrightarrow>
   readByte (write_mem M A W V highTetra) a = readByte M a"
  using readByte_outside_write [of a A W highTetra M V] by simp

text \<open>A wyde written at 1001 leaves the byte at 1002 alone.\<close>

theorem write_frame_witness:
  "2 = actualWidth WYDE False \<and>
   (1002 < alignAddress 1001 WYDE \<or> alignAddress 1001 WYDE + int 2 \<le> 1002) \<and>
   readByte (write_mem (writeByte Memory64_new 1002 0x77) 1001 WYDE 0xABCD False) 1002 = 0x77"
proof -
  have h1: "2 = actualWidth WYDE False" by (simp add: actualWidth_def)
  have h2: "1002 < alignAddress 1001 WYDE \<or> alignAddress 1001 WYDE + int 2 \<le> 1002" by simp
  from write_frame [OF h1 h2, of "writeByte Memory64_new 1002 0x77" "0xABCD"] h1 h2
  show ?thesis by (simp add: readByte_writeByte)
qed

lemma actualWidth_high: "W = HIGH_TETRA \<or> ht \<Longrightarrow> actualWidth W ht = 4"
  by (auto simp add: actualWidth_def split: Width.splits)

lemma align4: "alignAddress A TETRA = A - A mod 4"
  using alignAddress_pow2 [of A 2] by simp

lemma read_high:
  "W = HIGH_TETRA \<or> ht \<Longrightarrow> read M A W sign ht = push_bit 32 (read_loop M (A - A mod 4) 4)"
  using align4 [of A] by (auto simp add: read_def Let_def actualWidth_high)

lemma read_tetra: "read M A TETRA False False = read_loop M (A - A mod 4) 4"
  using align4 [of A] by (simp add: read_def Let_def actualWidth_def)

lemma read_loop_4:
  "read_loop M a 4 =
     push_bit 8 (push_bit 8 (push_bit 8 (push_bit 8 0 OR readByte M a) OR readByte M (a + 1))
       OR readByte M (a + 2)) OR readByte M (a + 3)"
proof -
  have u: "[0..<4] = [0, 1, 2, 3]"
    by (simp add: upt_rec)
  show ?thesis
    by (simp only: read_loop_def u fold_simps comp_apply id_apply int_ops(1) of_nat_1
          of_nat_numeral add_0_right)
qed

lemma readByte_write_tetra:
  "k < 4 \<Longrightarrow> readByte (write_mem M A TETRA V False) (alignAddress A TETRA + int k)
     = drop_bit (8 * (3 - k)) V AND 0xFF"
proof -
  assume k: "k < 4"
  have "drop_bit (8 * (3 - k)) (V AND (push_bit (4 * 8) 1 - 1)) AND 0xFF
      = drop_bit (8 * (3 - k)) V AND 0xFF"
    by (rule byte_of_masked) (use k in simp)
  with k show ?thesis
    by (simp add: write_mem_def actualWidth_def Let_def readByte_write_loop)
qed

lemma write_high:
  "W = HIGH_TETRA \<or> ht \<Longrightarrow>
   write_mem M A W V ht = write_loop M (A - A mod 4) 4 (drop_bit 32 V AND (push_bit (4 * 8) 1 - 1))"
  using align4 [of A] by (auto simp add: write_mem_def Let_def actualWidth_high)

lemma write_tetra:
  "write_mem M A TETRA V False = write_loop M (A - A mod 4) 4 (V AND (push_bit (4 * 8) 1 - 1))"
  using align4 [of A] by (simp add: write_mem_def Let_def actualWidth_def)

text \<open>
  C5. High-tetra accesses, that is every access whose width is \<open>HIGH_TETRA\<close> or whose
  \<open>highTetra\<close> option is set: the address is aligned down to the 4-byte boundary; the
  read decodes exactly the 4 bytes there, most significant first, into the upper half of
  the result, with the low 32 bits zero and the \<open>signed\<close> option ignored; the write stores
  the upper 32 bits of the value in exactly those 4 bytes, most significant first, and
  changes no other byte. With the octabyte \<open>0x0123456789ABCDEF\<close> at 1000, the high-tetra
  read at 1005 aligns to 1004 and returns \<open>0x89ABCDEF00000000\<close>, and the high-tetra write
  of \<open>0x12345678ABCDEFFF\<close> at 1000 stores \<open>0x12, 0x34, 0x56, 0x78\<close> at 1000 to 1003.
\<close>

theorem high_tetra_access:
  "W = HIGH_TETRA \<or> highTetra \<Longrightarrow> k < 4 \<Longrightarrow>
   alignAddress A (Num (actualWidth W highTetra)) = A - A mod 4 \<and>
   alignAddress A HIGH_TETRA = A - A mod 4 \<and>
   read M A W sign highTetra =
     push_bit 32
       (push_bit 8 (push_bit 8 (push_bit 8 (push_bit 8 0 OR readByte M (A - A mod 4))
          OR readByte M (A - A mod 4 + 1)) OR readByte M (A - A mod 4 + 2))
          OR readByte M (A - A mod 4 + 3)) \<and>
   read M A W sign highTetra = push_bit 32 (read M A TETRA False False) \<and>
   take_bit 32 (read M A W sign highTetra) = 0 \<and>
   write_mem M A W V highTetra = write_mem M A TETRA (drop_bit 32 V) False \<and>
   readByte (write_mem M A W V highTetra) (A - A mod 4 + int k)
     = drop_bit (8 * (3 - k)) (drop_bit 32 V) AND 0xFF \<and>
   (a < A - A mod 4 \<or> A - A mod 4 + 4 \<le> a \<longrightarrow>
      readByte (write_mem M A W V highTetra) a = readByte M a) \<and>
   read (write_mem M 1000 OCTA 0x0123456789ABCDEF False) 1005 W sign highTetra
     = 0x89ABCDEF00000000 \<and>
   alignAddress 1005 HIGH_TETRA = 1004 \<and>
   readByte (write_mem M 1000 W 0x12345678ABCDEFFF highTetra) 1000 = 0x12 \<and>
   readByte (write_mem M 1000 W 0x12345678ABCDEFFF highTetra) 1001 = 0x34 \<and>
   readByte (write_mem M 1000 W 0x12345678ABCDEFFF highTetra) 1002 = 0x56 \<and>
   readByte (write_mem M 1000 W 0x12345678ABCDEFFF highTetra) 1003 = 0x78"
proof -
  assume h: "W = HIGH_TETRA \<or> highTetra" and k: "k < 4"
  have a1: "alignAddress A (Num (actualWidth W highTetra)) = A - A mod 4"
    using align4 [of A] by (simp add: actualWidth_high [OF h])
  have a2: "alignAddress A HIGH_TETRA = A - A mod 4"
    using align4 [of A] by simp
  have r1: "read M A W sign highTetra =
     push_bit 32
       (push_bit 8 (push_bit 8 (push_bit 8 (push_bit 8 0 OR readByte M (A - A mod 4))
          OR readByte M (A - A mod 4 + 1)) OR readByte M (A - A mod 4 + 2))
          OR readByte M (A - A mod 4 + 3))"
    by (simp only: read_high [OF h] read_loop_4)
  have r2: "read M A W sign highTetra = push_bit 32 (read M A TETRA False False)"
    by (simp only: read_high [OF h] read_tetra)
  have r3: "take_bit 32 (read M A W sign highTetra) = 0"
    by (simp only: r2) (simp add: take_bit_push_bit)
  have w1: "write_mem M A W V highTetra = write_mem M A TETRA (drop_bit 32 V) False"
    by (simp only: write_high [OF h] write_tetra)
  have w2: "readByte (write_mem M A W V highTetra) (A - A mod 4 + int k)
     = drop_bit (8 * (3 - k)) (drop_bit 32 V) AND 0xFF"
    using readByte_write_tetra [OF k, of M A "drop_bit 32 V"]
    by (simp only: w1 align4)
  have w3: "a < A - A mod 4 \<or> A - A mod 4 + 4 \<le> a \<longrightarrow>
      readByte (write_mem M A W V highTetra) a = readByte M a"
    by (simp only: write_high [OF h] readByte_write_loop) auto
  have e1: "read (write_mem M 1000 OCTA 0x0123456789ABCDEF False) 1005 W sign highTetra
     = 0x89ABCDEF00000000"
    by (simp only: read_high [OF h] read_loop_4)
      (simp add: write_mem_def actualWidth_def Let_def readByte_write_loop)
  have a3: "alignAddress 1005 HIGH_TETRA = 1004"
    by simp
  have wb: "readByte (write_mem M 1000 W 0x12345678ABCDEFFF highTetra) b =
     (if 1000 \<le> b \<and> b < 1004 then drop_bit (8 * (3 - nat (b - 1000))) 0x12345678 AND 0xFF
      else readByte M b)" for b
    by (simp only: write_high [OF h] readByte_write_loop) simp
  have e2: "readByte (write_mem M 1000 W 0x12345678ABCDEFFF highTetra) 1000 = 0x12"
    "readByte (write_mem M 1000 W 0x12345678ABCDEFFF highTetra) 1001 = 0x34"
    "readByte (write_mem M 1000 W 0x12345678ABCDEFFF highTetra) 1002 = 0x56"
    "readByte (write_mem M 1000 W 0x12345678ABCDEFFF highTetra) 1003 = 0x78"
    unfolding wb by (simp_all add: eval_nat_numeral)
  show ?thesis
    by (intro conjI a1 a2 r1 r2 r3 w1 w2 w3 e1 a3 e2)
qed

text \<open>
  High-tetra accesses triggered by the option, at the width \<open>OCTA\<close>: the read, the
  third byte stored, and the byte at 1004 that survives the write.
\<close>

theorem high_tetra_access_witness:
  "(OCTA = HIGH_TETRA \<or> True) \<and> (2::nat) < 4 \<and>
   read (write_mem Memory64_new 1000 OCTA 0x0123456789ABCDEF False) 1005 OCTA True True
     = 0x89ABCDEF00000000 \<and>
   readByte (write_mem Memory64_new 1000 OCTA 0x12345678ABCDEFFF True) 1002 = 0x56 \<and>
   readByte (write_mem (writeByte Memory64_new 1004 0x99) 1000 OCTA 0x12345678ABCDEFFF True) 1004
     = 0x99"
proof -
  have h1: "OCTA = HIGH_TETRA \<or> True" by simp
  have h2: "(2::nat) < 4" by simp
  note t1 = high_tetra_access [OF h1 h2, of 1000 Memory64_new True "0x12345678ABCDEFFF" 1004]
  note t2 = high_tetra_access [OF h1 h2, of 1000 "writeByte Memory64_new 1004 0x99" True
      "0x12345678ABCDEFFF" 1004]
  have c1: "read (write_mem Memory64_new 1000 OCTA 0x0123456789ABCDEF False) 1005 OCTA True True
     = 0x89ABCDEF00000000"
    using t1 by blast
  have c2: "readByte (write_mem Memory64_new 1000 OCTA 0x12345678ABCDEFFF True) 1002 = 0x56"
    using t1 by blast
  have "(1004::int) < 1000 - 1000 mod 4 \<or> (1000::int) - 1000 mod 4 + 4 \<le> 1004"
    by simp
  with t2 have c3:
    "readByte (write_mem (writeByte Memory64_new 1004 0x99) 1000 OCTA 0x12345678ABCDEFFF True) 1004
       = readByte (writeByte Memory64_new 1004 0x99) 1004"
    by blast
  from c1 c2 c3 h1 h2 show ?thesis
    by (simp add: readByte_writeByte)
qed

section \<open>Claims about signed reads and formatting\<close>

lemma take_bit_64_signed:
  assumes "take_bit m u = u" "m \<le> 64"
  shows "take_bit 64 (u - 2 ^ m) = u + (2 ^ 64 - 2 ^ m :: int)"
proof -
  from assms(1) have r: "0 \<le> u" "u < 2 ^ m"
    by (simp_all add: take_bit_int_eq_self_iff)
  from assms(2) have "(2::int) ^ m \<le> 2 ^ 64"
    by (rule power_increasing) simp
  with r have "0 \<le> u - 2 ^ m + 2 ^ 64" "u - 2 ^ m + 2 ^ 64 < 2 ^ 64"
    by simp_all
  then have "take_bit 64 (u - 2 ^ m + 2 ^ 64) = u - 2 ^ m + 2 ^ 64"
    by (rule take_bit_int_eq_self)
  moreover have "take_bit 64 (u - 2 ^ m) = take_bit 64 (u - 2 ^ m + 2 ^ 64)"
    unfolding take_bit_eq_mod by (rule mod_add_self2 [symmetric])
  ultimately have "take_bit 64 (u - 2 ^ m) = u - 2 ^ m + 2 ^ 64"
    by (rule trans [rotated])
  then show ?thesis by simp
qed

lemma read_signed:
  assumes "byte_store M" "0 < n"
  shows "read M A (Num n) True False =
     (let u = read M A (Num n) False False
      in if bit u (n * 8 - 1) then u - 2 ^ (n * 8) else u)"
  using signExtend_signed [OF read_loop_range [OF assms(1)] assms(2)]
  by (simp add: read_def actualWidth_def Let_def mult.commute)

lemma read_unsigned_range:
  "byte_store M \<Longrightarrow> take_bit (n * 8) (read M A (Num n) False False) = read M A (Num n) False False"
  using read_loop_range [of M n]
  by (simp add: read_def actualWidth_def Let_def mult.commute)

text \<open>
  C7, as stated, fails: the signed read of a byte holding \<open>0xAB\<close> does not return the
  BigInt \<open>0xFFFFFFFFFFFFFFAB\<close>. \<open>signExtend\<close> computes \<open>value | ~mask\<close> on unbounded
  BigInts, which is the negative number \<open>-85\<close>.
\<close>

theorem signed_byte_counterexample:
  "read (writeByte Memory64_new 1005 0xAB) 1005 BYTE True False \<noteq> 0xFFFFFFFFFFFFFFAB"
  by (simp add: read_def actualWidth_def Let_def read_loop_def readByte_writeByte
        signExtend_def shl_def)

text \<open>
  C7, amended. On a store holding the byte \<open>0xAB\<close> at \<open>B\<close>, the signed read of that
  byte returns \<open>-85\<close>, whose low 64 bits (what \<open>formatHex\<close> renders) are
  \<open>0xFFFFFFFFFFFFFFAB\<close>, and the unsigned read returns \<open>0xAB\<close>. Generally, for each
  of the widths \<open>BYTE\<close>, \<open>WYDE\<close>, \<open>TETRA\<close> and \<open>OCTA\<close>, a signed read returns the
  two's-complement value of the decoded \<open>W * 8\<close>-bit pattern \<open>u\<close>: \<open>u - 2^(W*8)\<close>
  when its sign bit is set and \<open>u\<close> otherwise; the low 64 bits of that result are
  \<open>u\<close> with the bits \<open>W*8\<close> to 63 set to the sign bit.
\<close>

theorem signed_read_value:
  "byte_store M \<Longrightarrow> Num n \<in> {BYTE, WYDE, TETRA, OCTA} \<Longrightarrow> u = read M A (Num n) False False \<Longrightarrow>
   read (writeByte M B 0xAB) B BYTE True False = - 85 \<and>
   take_bit 64 (read (writeByte M B 0xAB) B BYTE True False) = 0xFFFFFFFFFFFFFFAB \<and>
   formatHex (read (writeByte M B 0xAB) B BYTE True False) 16 = ''FFFFFFFFFFFFFFAB'' \<and>
   read (writeByte M B 0xAB) B BYTE False False = 0xAB \<and>
   read M A (Num n) True False = (if bit u (n * 8 - 1) then u - 2 ^ (n * 8) else u) \<and>
   take_bit 64 (read M A (Num n) True False)
     = (if bit u (n * 8 - 1) then u + (2 ^ 64 - 2 ^ (n * 8)) else u)"
proof -
  assume bs: "byte_store M" and n: "Num n \<in> {BYTE, WYDE, TETRA, OCTA}"
    and u: "u = read M A (Num n) False False"
  have s: "read (writeByte M B 0xAB) B BYTE True False = - 85"
    by (simp add: read_def actualWidth_def Let_def read_loop_def readByte_writeByte
          signExtend_def shl_def)
  have t: "take_bit 64 (- 85 :: int) = 0xFFFFFFFFFFFFFFAB"
    by (simp add: take_bit_eq_mod)
  have f: "formatHex (- 85) 16 = ''FFFFFFFFFFFFFFAB''"
    by (simp add: format_eval)
  have b: "read (writeByte M B 0xAB) B BYTE False False = 0xAB"
    by (simp add: read_def actualWidth_def Let_def read_loop_def readByte_writeByte)
  from n have n0: "0 < n" and n8: "n * 8 \<le> 64" by auto
  have r: "take_bit (n * 8) u = u"
    unfolding u using bs by (rule read_unsigned_range)
  have g: "read M A (Num n) True False = (if bit u (n * 8 - 1) then u - 2 ^ (n * 8) else u)"
    using read_signed [OF bs n0, of A] u by (simp add: Let_def)
  have "0 \<le> u" "u < 2 ^ 64"
  proof -
    from r have "0 \<le> u" "u < 2 ^ (n * 8)" by (simp_all add: take_bit_int_eq_self_iff)
    moreover from n8 have "(2::int) ^ (n * 8) \<le> 2 ^ 64" by (rule power_increasing) simp
    ultimately show "0 \<le> u" "u < 2 ^ 64" by simp_all
  qed
  then have "take_bit 64 u = u" by (rule take_bit_int_eq_self)
  then have h: "take_bit 64 (read M A (Num n) True False)
     = (if bit u (n * 8 - 1) then u + (2 ^ 64 - 2 ^ (n * 8)) else u)"
    unfolding g using take_bit_64_signed [OF r n8] by simp
  show ?thesis
    unfolding s using t f b g h by simp
qed

text \<open>The signed wyde at 1004 of the octabyte \<open>0x0123456789ABCDEF\<close> stored at 1000.\<close>

theorem signed_read_value_witness:
  "byte_store (write_mem Memory64_new 1000 OCTA 0x0123456789ABCDEF False) \<and>
   WYDE \<in> {BYTE, WYDE, TETRA, OCTA} \<and>
   read (write_mem Memory64_new 1000 OCTA 0x0123456789ABCDEF False) 1004 WYDE False False = 0x89AB \<and>
   read (write_mem Memory64_new 1000 OCTA 0x0123456789ABCDEF False) 1004 WYDE True False = - 30293 \<and>
   take_bit 64 (read (write_mem Memory64_new 1000 OCTA 0x0123456789ABCDEF False) 1004 WYDE True False)
     = 0xFFFFFFFFFFFF89AB"
proof -
  let ?M = "write_mem Memory64_new 1000 OCTA 0x0123456789ABCDEF False"
  have h1: "byte_store ?M"
    by (rule byte_store_write_mem) (rule byte_store_new)
  have h2: "WYDE \<in> {BYTE, WYDE, TETRA, OCTA}" by simp
  have u: "read ?M 1004 WYDE False False = 0x89AB"
    by (simp add: read_def write_mem_def actualWidth_def Let_def read_loop_def eval_nat_numeral
          readByte_write_loop)
  have b: "bit (0x89AB :: int) 15" by (simp add: bit_iff_odd)
  from signed_read_value [OF h1 h2 u [symmetric], of 0] h1 u b
  show ?thesis by simp
qed

lemma length_digits:
  "2 \<le> r \<Longrightarrow> 0 < k \<Longrightarrow> n < r ^ k \<Longrightarrow> length (digits r n) \<le> k"
proof (induction k arbitrary: n)
  case 0
  then show ?case by simp
next
  case (Suc k)
  show ?case
  proof (cases "n < r")
    case True
    then show ?thesis by (simp add: digits_less)
  next
    case False
    with Suc.prems have k: "0 < k"
      by (cases k) auto
    from Suc.prems have "n div r < r ^ k"
      by (simp add: less_mult_imp_div_less mult.commute)
    with Suc.IH [of "n div r"] Suc.prems(1) k have "length (digits r (n div r)) \<le> k"
      by simp
    with False Suc.prems(1) show ?thesis
      by (simp add: digits_step)
  qed
qed

lemma length_formatHex_uint: "length (formatHex (uint (w :: 64 word)) 16) = 16"
proof -
  have "nat (uint w) < 16 ^ 16"
    using unsigned_less [of w, where ?'a = nat] by simp
  then have "length (digits 16 (nat (uint w))) \<le> 16"
    by (intro length_digits) simp_all
  then show ?thesis
    by (simp add: formatHex_def toString_def padStart_def toUpperCase_def)
qed

lemma digit_row_Suc:
  "0 < k \<Longrightarrow> digit_row r (Suc k) n = digit_row r k (n div r) @ [digit_char (n mod r)]"
proof -
  assume "0 < k"
  have "n div r ^ (k - i) mod r = n div r div r ^ (k - 1 - i) mod r" if "i < k" for i
  proof -
    from that have "r ^ (k - i) = r * r ^ (k - 1 - i)"
      by (metis Suc_diff_Suc diff_Suc_eq_diff_pred power_Suc diff_commute)
    then show ?thesis by (simp add: div_mult2_eq)
  qed
  then show ?thesis
    by (simp add: digit_row_def)
qed

lemma digit_row_zero: "digit_row r k 0 = replicate k (CHR ''0'')"
  by (simp add: digit_row_def digit_char_def map_replicate_const)

lemma padStart_digits:
  "2 \<le> r \<Longrightarrow> 0 < k \<Longrightarrow> n < r ^ k \<Longrightarrow> padStart (digits r n) k (CHR ''0'') = digit_row r k n"
proof (induction k arbitrary: n)
  case 0
  then show ?case by simp
next
  case (Suc k)
  show ?case
  proof (cases "k = 0")
    case True
    with Suc.prems show ?thesis
      by (simp add: digits_less padStart_def digit_row_def)
  next
    case False
    then have k: "0 < k" by simp
    show ?thesis
    proof (cases "n < r")
      case True
      then have "n div r = 0" "n mod r = n" by simp_all
      with True k show ?thesis
        by (simp add: digit_row_Suc digit_row_zero digits_less padStart_def)
    next
      case False
      from Suc.prems have lt: "n div r < r ^ k"
        by (simp add: less_mult_imp_div_less mult.commute)
      from Suc.IH [OF Suc.prems(1) k lt]
      have IH: "replicate (k - length (digits r (n div r))) (CHR ''0'') @ digits r (n div r)
         = digit_row r k (n div r)"
        by (simp add: padStart_def)
      from False Suc.prems(1) k show ?thesis
        by (simp add: digit_row_Suc digits_step padStart_def IH)
    qed
  qed
qed

lemma upper_chars:
  "toUpperCase ''0123456789abcdef'' = ''0123456789ABCDEF''"
  by (simp add: toUpperCase_def)

lemma toUpperCase_nth: "d < length s \<Longrightarrow> toUpperCase [s ! d] = [toUpperCase s ! d]"
  by (simp add: toUpperCase_def)

lemma upper_digit: "d < 16 \<Longrightarrow> toUpperCase [digit_char d] = [''0123456789ABCDEF'' ! d]"
proof -
  assume d: "d < 16"
  have l: "length ''0123456789abcdef'' = 16" by simp
  have "toUpperCase [''0123456789abcdef'' ! d] = [toUpperCase ''0123456789abcdef'' ! d]"
    by (rule toUpperCase_nth) (simp only: l d)
  moreover have "digit_char d = ''0123456789abcdef'' ! d"
  proof -
    have "''0123456789abcdefghijklmnopqrstuvwxyz'' ! d
        = (''0123456789abcdef'' @ ''ghijklmnopqrstuvwxyz'') ! d"
      by simp
    also have "\<dots> = ''0123456789abcdef'' ! d"
      by (simp only: nth_append l d if_True)
    finally show ?thesis
      by (simp only: digit_char_def)
  qed
  ultimately show ?thesis
    by (simp only: upper_chars)
qed

lemma toUpperCase_map:
  "toUpperCase (map f xs) = concat (map (\<lambda>x. toUpperCase [f x]) xs)"
  by (induction xs) (simp_all add: toUpperCase_def)

lemma toUpperCase_digit_row:
  "toUpperCase (digit_row 16 k n) = map (\<lambda>i. ''0123456789ABCDEF'' ! (n div 16 ^ (k - 1 - i) mod 16)) [0..<k]"
proof -
  have "concat (map (\<lambda>i. toUpperCase [digit_char (n div 16 ^ (k - 1 - i) mod 16)]) xs)
      = map (\<lambda>i. ''0123456789ABCDEF'' ! (n div 16 ^ (k - 1 - i) mod 16)) xs" for xs
    by (induction xs) (simp_all add: upper_digit)
  then show ?thesis
    by (simp only: digit_row_def toUpperCase_map)
qed

lemma padStart_toUpperCase:
  "padStart (toUpperCase s) k (CHR ''0'') = toUpperCase (padStart s k (CHR ''0''))"
  by (simp add: padStart_def toUpperCase_def map_replicate_const)

lemma formatHex_nonneg:
  assumes "0 \<le> V" "V < 2 ^ 64"
  shows "formatHex V 16 = map (\<lambda>i. ''0123456789ABCDEF'' ! (nat V div 16 ^ (15 - i) mod 16)) [0..<16]"
proof -
  from assms have "nat V < 16 ^ 16" by simp
  then have "padStart (digits 16 (nat V)) 16 (CHR ''0'') = digit_row 16 16 (nat V)"
    by (intro padStart_digits) simp_all
  with assms(1) show ?thesis
    by (simp add: formatHex_def toString_def padStart_toUpperCase toUpperCase_digit_row)
qed

lemma nat_hex_digit:
  "0 \<le> W \<Longrightarrow> nat W div 16 ^ j mod 16 = nat (W div 16 ^ j mod 16)"
proof -
  assume W: "0 \<le> W"
  have p: "nat ((16::int) ^ j) = 16 ^ j"
    by (simp add: nat_power_eq)
  from W have "0 \<le> W div 16 ^ j"
    by (simp add: pos_imp_zdiv_nonneg_iff)
  then have "nat (W div 16 ^ j mod 16) = nat (W div 16 ^ j) mod 16"
    by (simp add: nat_mod_distrib)
  also have "nat (W div 16 ^ j) = nat W div 16 ^ j"
    using W by (simp add: nat_div_distrib p)
  finally show ?thesis by simp
qed

lemma formatHex_digits:
  assumes "- (2 ^ 64) \<le> V" "V < 2 ^ 64"
  shows "formatHex V 16 =
    map (\<lambda>i. ''0123456789ABCDEF'' ! nat (V mod 2 ^ 64 div 16 ^ (15 - i) mod 16)) [0..<16]"
proof -
  define W where "W = V mod 2 ^ 64"
  have W: "0 \<le> W" "W < 2 ^ 64"
    by (simp_all add: W_def)
  have "formatHex V 16 = formatHex W 16"
  proof (cases "V < 0")
    case True
    with assms have r: "0 \<le> V + 2 ^ 64" "V + 2 ^ 64 < 2 ^ 64" by simp_all
    have "V mod 2 ^ 64 = (V + 2 ^ 64) mod 2 ^ 64"
      by (rule mod_add_self2 [symmetric])
    also have "\<dots> = V + 2 ^ 64"
      using r by (rule mod_pos_pos_trivial)
    finally have "W = 2 ^ 64 + V" by (simp add: W_def)
    with True W(1) show ?thesis
      by (simp add: formatHex_def)
  next
    case False
    with assms have "V mod 2 ^ 64 = V" by simp
    then show ?thesis by (simp add: W_def)
  qed
  also have "\<dots> = map (\<lambda>i. ''0123456789ABCDEF'' ! (nat W div 16 ^ (15 - i) mod 16)) [0..<16]"
    using W by (rule formatHex_nonneg)
  also have "\<dots> = map (\<lambda>i. ''0123456789ABCDEF'' ! nat (W div 16 ^ (15 - i) mod 16)) [0..<16]"
    by (simp only: nat_hex_digit [OF W(1)])
  finally show ?thesis
    unfolding W_def .
qed

lemma parseInt_minus_digits: "parseInt (CHR ''-'' # digits 10 k) = Number (- int k)"
proof -
  have all: "\<forall>x \<in> set (digits 10 k). isDigit x"
    using digits_dec [of k] by (auto simp add: digit_char_props)
  have tw: "takeWhile isDigit (digits 10 k) = digits 10 k"
    using all by (simp add: takeWhile_eq_all_conv)
  have ne: "digits 10 k \<noteq> []"
    using digits_dec [of k] by simp
  have ws: "\<not> isWhiteSpace (CHR ''-'')"
    by (simp add: isWhiteSpace_def)
  show ?thesis
    using ne digits_dec [of k] by (simp add: parseInt_def Let_def ws tw)
qed

lemma parseInt_toString: "parseInt (toString v 10) = Number v"
proof (cases "v < 0")
  case True
  then show ?thesis
    using parseInt_minus_digits [of "nat (- v)"] by (simp add: toString_def)
next
  case False
  then show ?thesis
    by (simp add: toString_def parseInt_digits)
qed

lemma parseInt_formatSigned: "parseInt (formatSigned (uint (w :: 64 word))) = Number (sint w)"
  by (simp only: formatSigned_uint parseInt_toString)

text \<open>
  C8. \<open>formatHex(-1, 16)\<close> is \<open>FFFFFFFFFFFFFFFF\<close> and \<open>formatSigned\<close> of the bit
  pattern \<open>0xFFFFFFFFFFFFFFFF\<close> is \<open>-1\<close>. For every \<open>V\<close> from \<open>-2^64\<close> up to
  \<open>2^64 - 1\<close>, \<open>formatHex(V, 16)\<close> is the 16 upper-case hexadecimal digits, most
  significant first and with leading zeros, of \<open>V\<close> brought into \<open>0 .. 2^64 - 1\<close> by
  two's complement (\<open>V mod 2^64\<close>). For every 64-bit pattern \<open>w\<close>, \<open>formatHex\<close>
  renders its signed value as it renders the pattern itself, in exactly 16 characters, and
  \<open>formatSigned\<close> renders the pattern as the decimal form of its signed value, which
  \<open>parseInt\<close> reads back; the
  patterns \<open>0x7FFFFFFFFFFFFFFF\<close> and \<open>0x8000000000000000\<close> are the largest and the
  smallest signed value.
\<close>

theorem format_examples:
  "- (2 ^ 64) \<le> V \<Longrightarrow> V < 2 ^ 64 \<Longrightarrow>
   formatHex (- 1) 16 = ''FFFFFFFFFFFFFFFF'' \<and>
   formatSigned 0xFFFFFFFFFFFFFFFF = ''-1'' \<and>
   formatHex V 16 =
     map (\<lambda>i. ''0123456789ABCDEF'' ! nat (V mod 2 ^ 64 div 16 ^ (15 - i) mod 16)) [0..<16] \<and>
   formatHex (sint w) 16 = formatHex (uint (w :: 64 word)) 16 \<and>
   length (formatHex (uint w) 16) = 16 \<and>
   formatSigned (uint w) = toString (sint w) 10 \<and>
   parseInt (formatSigned (uint w)) = Number (sint w) \<and>
   formatHex 0x123 8 = ''00000123'' \<and>
   formatHex 0xABCDEF 16 = ''0000000000ABCDEF'' \<and>
   formatSigned 123 = ''123'' \<and>
   formatSigned 0x7FFFFFFFFFFFFFFF = ''9223372036854775807'' \<and>
   formatSigned 0x8000000000000000 = ''-9223372036854775808''"
proof -
  assume V: "- (2 ^ 64) \<le> V" "V < 2 ^ 64"
  have a: "formatHex (- 1) 16 = ''FFFFFFFFFFFFFFFF''"
    by (simp add: format_eval)
  have b: "formatSigned 0xFFFFFFFFFFFFFFFF = ''-1''"
    by (simp add: format_eval)
  have c: "formatHex 0x123 8 = ''00000123''" "formatHex 0xABCDEF 16 = ''0000000000ABCDEF''"
    by (simp_all add: format_eval) (simp_all add: eval_nat_numeral)
  have d: "formatSigned 123 = ''123''"
    "formatSigned 0x7FFFFFFFFFFFFFFF = ''9223372036854775807''"
    "formatSigned 0x8000000000000000 = ''-9223372036854775808''"
    by (simp_all add: format_eval)
  show ?thesis
    by (intro conjI a b c d formatHex_digits [OF V] formatHex_sint length_formatHex_uint
          formatSigned_uint parseInt_formatSigned)
qed

text \<open>The 16 digits of \<open>-85\<close>.\<close>

theorem format_examples_witness:
  "- (2 ^ 64) \<le> (- 85 :: int) \<and> (- 85 :: int) < 2 ^ 64 \<and>
   formatHex (- 85) 16 = ''FFFFFFFFFFFFFFAB''"
proof -
  have h1: "- (2 ^ 64) \<le> (- 85 :: int)" by simp
  have h2: "(- 85 :: int) < 2 ^ 64" by simp
  have m: "(- 85 :: int) mod 2 ^ 64 = 0xFFFFFFFFFFFFFFAB" by simp
  have u: "[0..<16] = [0, 1, 2, 3, 4, 5, 6, 7, 8, 9, 10, 11, 12, 13, 14, 15]"
    by (simp add: upt_rec)
  from format_examples [OF h1 h2, THEN conjunct2, THEN conjunct2, THEN conjunct1] have
    "formatHex (- 85) 16 =
       map (\<lambda>i. ''0123456789ABCDEF'' ! nat ((- 85) mod 2 ^ 64 div 16 ^ (15 - i) mod 16)) [0..<16]"
    .
  then have "formatHex (- 85) 16 = ''FFFFFFFFFFFFFFAB''"
    unfolding m u by simp
  with h1 h2 show ?thesis by simp
qed

section \<open>Claims about the register file\<close>

lemma typed_get_out: "i < 0 \<or> int (length arr) \<le> i \<Longrightarrow> typed_get arr (Number i) = Undefined"
  by (auto simp add: typed_get_def)

lemma typed_set_out: "i < 0 \<or> int (length arr) \<le> i \<Longrightarrow> typed_set arr (Number i) v = arr"
  by (auto simp add: typed_set_def)

lemma typed_NaN: "typed_get arr NaN = Undefined" "typed_set arr NaN v = arr"
  by (simp_all add: typed_get_def typed_set_def)

lemma typed_get_in: "k < length arr \<Longrightarrow> typed_get arr (Number (int k)) = BigInt (arr ! k)"
  by (simp add: typed_get_def)

text \<open>
  C1, as stated, fails: \<open>reset\<close> calls \<open>this.mem.clear()\<close>. After
  \<open>mem.write(0, OCTA, 456)\<close> the byte at 7 is \<open>0xC8\<close>; after \<open>reset()\<close> it reads 0.
\<close>

theorem reset_memory_counterexample:
  "reachable (MMIX_new\<lparr>mem := write_mem (mem MMIX_new) 0 OCTA 456 False\<rparr>) \<and>
   readByte (mem (reset (MMIX_new\<lparr>mem := write_mem (mem MMIX_new) 0 OCTA 456 False\<rparr>))) 7
     \<noteq> readByte (mem (MMIX_new\<lparr>mem := write_mem (mem MMIX_new) 0 OCTA 456 False\<rparr>)) 7"
proof -
  have "reachable (MMIX_new\<lparr>mem := write_mem (mem MMIX_new) 0 OCTA 456 False\<rparr>)"
    by (rule reachable.by_write) (rule reachable.by_new)
  moreover have "readByte (write_mem (mem MMIX_new) 0 OCTA 456 False) 7 = 200"
    by (simp add: write_mem_def actualWidth_def Let_def readByte_write_loop)
  ultimately show ?thesis
    by (simp add: reset_def clear_def readByte_def)
qed

text \<open>
  C1, amended. In every reachable machine state, \<open>reset()\<close> makes every general
  register, every special register and the program counter read as 0, and empties the
  memory store: \<open>readByte(a)\<close> returns 0 after \<open>reset()\<close>, for every address \<open>a\<close>.
\<close>

theorem reset_zeroes_all:
  "reachable m \<Longrightarrow> i < 256 \<Longrightarrow> j < 32 \<Longrightarrow>
   getReg (reset m) (Number (int i)) = Inr (BigInt 0) \<and>
   getSpecialReg (reset m) (Number (int j)) = Inr (BigInt 0) \<and>
   pc (reset m) = 0 \<and>
   readByte (mem (reset m)) a = 0"
  by (simp add: reset_reachable MMIX_new_def getReg_def getSpecialReg_def typed_get_def
        readByte_def Memory64_new_def)

text \<open>The state of the counterexample, reset.\<close>

theorem reset_zeroes_all_witness:
  "reachable (MMIX_new\<lparr>mem := write_mem (mem MMIX_new) 0 OCTA 456 False\<rparr>) \<and>
   readByte (mem (reset (MMIX_new\<lparr>mem := write_mem (mem MMIX_new) 0 OCTA 456 False\<rparr>))) 7 = 0 \<and>
   getReg (reset (MMIX_new\<lparr>mem := write_mem (mem MMIX_new) 0 OCTA 456 False\<rparr>)) (Number 0)
     = Inr (BigInt 0)"
proof -
  have r: "reachable (MMIX_new\<lparr>mem := write_mem (mem MMIX_new) 0 OCTA 456 False\<rparr>)"
    by (rule reachable.by_write) (rule reachable.by_new)
  from reset_zeroes_all [OF r, of 0 0 7] r show ?thesis by simp
qed

lemma BigInt_of_errors: "BigInt_of v = Inl e \<Longrightarrow> e \<in> {RangeError, TypeError, SyntaxError}"
  by (cases v) (auto split: option.splits)

lemma setReg_out:
  "length (reg m) = 256 \<Longrightarrow> i < 0 \<or> 256 \<le> i \<Longrightarrow>
   setReg m (Number i) v = (case BigInt_of v of Inl e \<Rightarrow> Inl e | Inr b \<Rightarrow> Inr m)"
  by (simp add: setReg_def typed_set_out split: sum.splits)

lemma setSpecialReg_out:
  "length (sreg m) = 32 \<Longrightarrow> j < 0 \<or> 32 \<le> j \<Longrightarrow>
   setSpecialReg m (Number j) v = (case BigInt_of v of Inl e \<Rightarrow> Inl e | Inr b \<Rightarrow> Inr m)"
  by (simp add: setSpecialReg_def typed_set_out split: sum.splits)

lemma setReg_NaN:
  "setReg m NaN v = (case BigInt_of v of Inl e \<Rightarrow> Inl e | Inr b \<Rightarrow> Inr m)"
  "setSpecialReg m NaN v = (case BigInt_of v of Inl e \<Rightarrow> Inl e | Inr b \<Rightarrow> Inr m)"
  by (simp_all add: setReg_def setSpecialReg_def typed_NaN split: sum.splits)

lemma setReg_raises: "setReg m index v = Inl e \<longleftrightarrow> BigInt_of v = Inl e"
  by (simp add: setReg_def split: sum.splits)

lemma setSpecialReg_raises: "setSpecialReg m index v = Inl e \<longleftrightarrow> BigInt_of v = Inl e"
  by (simp add: setSpecialReg_def split: sum.splits)

text \<open>
  C2, as stated, fails: \<open>getReg(256)\<close> on a new machine raises nothing; the typed array
  answers \<open>undefined\<close>.
\<close>

theorem register_index_counterexample:
  "getReg MMIX_new (Number 256) \<noteq> Inl OutOfRangeIndex"
  by (simp add: getReg_def)

text \<open>
  C2, amended. For every index outside \<open>[0, 256)\<close> and every primitive value,
  \<open>getReg\<close> and \<open>setReg\<close> raise no \<open>OutOfRangeIndex\<close>: \<open>getReg\<close> returns
  \<open>undefined\<close>, and \<open>setReg\<close> raises exactly when the conversion \<open>BigInt(value)\<close>
  raises, with the error of that conversion, as it does at an index inside the range;
  likewise \<open>getSpecialReg\<close> and \<open>setSpecialReg\<close> for every index outside the 32 slots.
\<close>

theorem register_index_not_checked:
  "reachable m \<Longrightarrow> i < 0 \<or> 256 \<le> i \<Longrightarrow> j < 0 \<or> 32 \<le> j \<Longrightarrow>
   getReg m (Number i) = Inr Undefined \<and>
   getSpecialReg m (Number j) = Inr Undefined \<and>
   setReg m (Number i) v \<noteq> Inl OutOfRangeIndex \<and>
   setSpecialReg m (Number j) v \<noteq> Inl OutOfRangeIndex \<and>
   (setReg m (Number i) v = Inl e \<longleftrightarrow> BigInt_of v = Inl e) \<and>
   (setSpecialReg m (Number j) v = Inl e \<longleftrightarrow> BigInt_of v = Inl e) \<and>
   (setReg m (Number i) v = Inl e \<longleftrightarrow> setReg m (Number 0) v = Inl e) \<and>
   (setSpecialReg m (Number j) v = Inl e \<longleftrightarrow> setSpecialReg m (Number 0) v = Inl e)"
proof -
  assume r: "reachable m" and i: "i < 0 \<or> 256 \<le> i" and j: "j < 0 \<or> 32 \<le> j"
  from r have len: "length (reg m) = 256" "length (sreg m) = 32"
    using reachable_inv by simp_all
  have g: "getReg m (Number i) = Inr Undefined" "getSpecialReg m (Number j) = Inr Undefined"
    using len i j by (simp_all add: getReg_def getSpecialReg_def typed_get_out)
  have n: "setReg m (Number i) v \<noteq> Inl OutOfRangeIndex"
    "setSpecialReg m (Number j) v \<noteq> Inl OutOfRangeIndex"
    using BigInt_of_errors [of v OutOfRangeIndex]
    by (auto simp add: setReg_raises setSpecialReg_raises)
  show ?thesis
    by (intro conjI g n) (simp_all only: setReg_raises setSpecialReg_raises)
qed

text \<open>The indices 256 and -1 on a new machine, with a BigInt and with \<open>undefined\<close>.\<close>

theorem register_index_not_checked_witness:
  "reachable MMIX_new \<and> ((256::int) < 0 \<or> (256::int) \<le> 256) \<and>
   ((- 1 :: int) < 0 \<or> (32::int) \<le> - 1) \<and>
   getReg MMIX_new (Number 256) = Inr Undefined \<and>
   getSpecialReg MMIX_new (Number (- 1)) = Inr Undefined \<and>
   setReg MMIX_new (Number 256) (VBigInt 7) \<noteq> Inl OutOfRangeIndex \<and>
   setReg MMIX_new (Number 256) VUndefined = Inl TypeError \<and>
   setSpecialReg MMIX_new (Number (- 1)) VUndefined = Inl TypeError"
proof -
  have h1: "(256::int) < 0 \<or> (256::int) \<le> 256" by simp
  have h2: "(- 1 :: int) < 0 \<or> (32::int) \<le> - 1" by simp
  note t1 = register_index_not_checked [OF reachable.by_new h1 h2, of "VBigInt 7" TypeError]
  note t2 = register_index_not_checked [OF reachable.by_new h1 h2, of VUndefined TypeError]
  from t1 t2 reachable.by_new h1 h2 show ?thesis by simp
qed

text \<open>
  C10, as stated, fails: \<open>setReg(256, undefined)\<close> raises \<open>TypeError\<close> and
  \<open>setReg(256, 1.5)\<close> raises \<open>RangeError\<close>, since \<open>BigInt(value)\<close> is evaluated before
  the store.
\<close>

theorem out_of_range_raise_counterexample:
  "setReg MMIX_new (Number 256) VUndefined = Inl TypeError \<and>
   setReg MMIX_new (Number 256) VNonInteger = Inl RangeError \<and>
   setSpecialReg MMIX_new (Number (- 1)) VNonInteger = Inl RangeError"
  by (simp add: setReg_def setSpecialReg_def)

text \<open>
  C10, amended. Out-of-range behaviour of the register file: for every index outside
  \<open>[0, 256)\<close> (and for \<open>NaN\<close>) and every primitive value, \<open>setReg\<close> returns normally
  and leaves the whole machine state as it was when \<open>BigInt(value)\<close> succeeds (a BigInt,
  an integral Number, a boolean, a string holding an integer literal), and raises the
  error of that conversion, before any store, when it does not (\<open>RangeError\<close> for a
  Number that is no integer, \<open>TypeError\<close> for \<open>undefined\<close>, \<open>null\<close> and a symbol,
  \<open>SyntaxError\<close> for any other string); \<open>getReg\<close> returns normally with
  \<open>undefined\<close>, no stored value; the same for \<open>setSpecialReg\<close> and
  \<open>getSpecialReg\<close> with an index outside \<open>[0, 32)\<close>.
\<close>

theorem out_of_range_access:
  "reachable m \<Longrightarrow> i < 0 \<or> 256 \<le> i \<Longrightarrow> j < 0 \<or> 32 \<le> j \<Longrightarrow>
   (BigInt_of v = Inr b \<longrightarrow>
      setReg m (Number i) v = Inr m \<and> setSpecialReg m (Number j) v = Inr m \<and>
      setReg m NaN v = Inr m \<and> setSpecialReg m NaN v = Inr m) \<and>
   (BigInt_of v = Inl e \<longrightarrow>
      e \<in> {RangeError, TypeError, SyntaxError} \<and>
      setReg m (Number i) v = Inl e \<and> setSpecialReg m (Number j) v = Inl e \<and>
      setReg m NaN v = Inl e \<and> setSpecialReg m NaN v = Inl e) \<and>
   setReg m (Number i) (VBigInt n) = Inr m \<and>
   setReg m (Number i) (VInteger n) = Inr m \<and>
   setReg m (Number i) (VBoolean t) = Inr m \<and>
   setReg m (Number i) VNonInteger = Inl RangeError \<and>
   setReg m (Number i) VUndefined = Inl TypeError \<and>
   setReg m (Number i) VNull = Inl TypeError \<and>
   setReg m (Number i) VSymbol = Inl TypeError \<and>
   getReg m (Number i) = Inr Undefined \<and> getSpecialReg m (Number j) = Inr Undefined \<and>
   getReg m NaN = Inr Undefined \<and> getSpecialReg m NaN = Inr Undefined"
proof -
  assume r: "reachable m" and i: "i < 0 \<or> 256 \<le> i" and j: "j < 0 \<or> 32 \<le> j"
  from r have len: "length (reg m) = 256" "length (sreg m) = 32"
    using reachable_inv by simp_all
  note s = setReg_out [OF len(1) i] setSpecialReg_out [OF len(2) j] setReg_NaN
  have ok: "BigInt_of v = Inr b \<longrightarrow>
      setReg m (Number i) v = Inr m \<and> setSpecialReg m (Number j) v = Inr m \<and>
      setReg m NaN v = Inr m \<and> setSpecialReg m NaN v = Inr m"
    by (simp add: s)
  have err: "BigInt_of v = Inl e \<longrightarrow>
      e \<in> {RangeError, TypeError, SyntaxError} \<and>
      setReg m (Number i) v = Inl e \<and> setSpecialReg m (Number j) v = Inl e \<and>
      setReg m NaN v = Inl e \<and> setSpecialReg m NaN v = Inl e"
    using BigInt_of_errors [of v e] by (simp add: s)
  have ex: "setReg m (Number i) (VBigInt n) = Inr m"
    "setReg m (Number i) (VInteger n) = Inr m"
    "setReg m (Number i) (VBoolean t) = Inr m"
    "setReg m (Number i) VNonInteger = Inl RangeError"
    "setReg m (Number i) VUndefined = Inl TypeError"
    "setReg m (Number i) VNull = Inl TypeError"
    "setReg m (Number i) VSymbol = Inl TypeError"
    by (simp_all add: s)
  have g: "getReg m (Number i) = Inr Undefined" "getSpecialReg m (Number j) = Inr Undefined"
    "getReg m NaN = Inr Undefined" "getSpecialReg m NaN = Inr Undefined"
    using len i j by (simp_all add: getReg_def getSpecialReg_def typed_get_out typed_NaN)
  show ?thesis
    by (intro conjI ok err ex g)
qed

text \<open>
  Register 256 and special register -1 of a new machine, written with the strings
  \<open>' 0x1F '\<close> and \<open>'1.5'\<close>.
\<close>

theorem out_of_range_access_witness:
  "reachable MMIX_new \<and> ((256::int) < 0 \<or> (256::int) \<le> 256) \<and>
   ((- 1 :: int) < 0 \<or> (32::int) \<le> - 1) \<and>
   BigInt_of (VString '' 0x1F '') = Inr 31 \<and>
   setReg MMIX_new (Number 256) (VString '' 0x1F '') = Inr MMIX_new \<and>
   setSpecialReg MMIX_new (Number (- 1)) (VString '' 0x1F '') = Inr MMIX_new \<and>
   BigInt_of (VString ''1.5'') = Inl SyntaxError \<and>
   setReg MMIX_new (Number 256) (VString ''1.5'') = Inl SyntaxError \<and>
   getReg MMIX_new (Number 256) = Inr Undefined \<and>
   getSpecialReg MMIX_new (Number (- 1)) = Inr Undefined"
proof -
  have h1: "(256::int) < 0 \<or> (256::int) \<le> 256" by simp
  have h2: "(- 1 :: int) < 0 \<or> (32::int) \<le> - 1" by simp
  have b1: "BigInt_of (VString '' 0x1F '') = Inr 31"
    by (simp add: StringToBigInt_def trimString_def isWhiteSpace_def parseDigits_def
          digitIn_def hexVal_def)
  have b2: "BigInt_of (VString ''1.5'') = Inl SyntaxError"
    by (simp add: StringToBigInt_def trimString_def isWhiteSpace_def parseDigits_def
          digitIn_def hexVal_def)
  note t1 = out_of_range_access [OF reachable.by_new h1 h2, of "VString '' 0x1F ''" 31 TypeError 0 True]
  note t2 = out_of_range_access [OF reachable.by_new h1 h2, of "VString ''1.5''" 0 SyntaxError 0 True]
  from t1 b1 have c1: "setReg MMIX_new (Number 256) (VString '' 0x1F '') = Inr MMIX_new"
    "setSpecialReg MMIX_new (Number (- 1)) (VString '' 0x1F '') = Inr MMIX_new"
    "getReg MMIX_new (Number 256) = Inr Undefined"
    "getSpecialReg MMIX_new (Number (- 1)) = Inr Undefined"
    by blast+
  from t2 b2 have c2: "setReg MMIX_new (Number 256) (VString ''1.5'') = Inl SyntaxError"
    by blast
  from c1 c2 b1 b2 reachable.by_new h1 h2 show ?thesis
    by (intro conjI)
qed

lemma SpecialReg_entries:
  "\<forall>p \<in> set SpecialReg. snd p < 32 \<and> \<not> startsWith (fst p) ''$''"
  by (simp add: SpecialReg_def startsWith_def)

lemma SpecialReg_lookup:
  assumes "map_of SpecialReg name = Some idx"
  shows "idx < 32" "\<not> startsWith name ''$''"
  using map_of_SomeD [OF assms] SpecialReg_entries by auto

lemma toString_nat: "toString (int k) 10 = digits 10 k"
  by (simp add: toString_def)

lemma getRegByName_dollar:
  "getRegByName m (''$'' @ s) = getReg m (parseInt s)"
  by (simp add: getRegByName_def startsWith_def slice_def)

text \<open>
  C3, as stated, fails: \<open>getRegByName('$256')\<close> does not fail with \<open>UnknownRegister\<close>;
  it returns what \<open>getReg(256)\<close> returns, \<open>undefined\<close>.
\<close>

theorem getRegByName_counterexample:
  "getRegByName MMIX_new ''$256'' \<noteq> Inl (UnknownRegister ''$256'')"
  by (simp add: getRegByName_def startsWith_def getReg_def)

text \<open>
  C3, amended. In every reachable machine state: for \<open>k\<close> in \<open>[0, 255]\<close>,
  \<open>getRegByName\<close> of \<open>$\<close> followed by the decimal form of \<open>k\<close> returns general
  register \<open>k\<close>; for a mnemonic of the table it returns the special register of that
  slot; for every name that starts with \<open>$\<close> it never fails and returns what \<open>getReg\<close>
  returns at \<open>parseInt\<close> of the rest, which is \<open>undefined\<close> for a decimal index of 256
  or more; it fails with \<open>UnknownRegister\<close> for every name that does not start with
  \<open>$\<close>, is no mnemonic of the table and is no property name inherited from
  \<open>Object.prototype\<close>.
\<close>

theorem getRegByName_cases:
  "reachable m \<Longrightarrow>
   (k < 256 \<longrightarrow> getRegByName m (''$'' @ toString (int k) 10) = Inr (BigInt (reg m ! k))) \<and>
   (map_of SpecialReg name = Some idx \<longrightarrow>
      idx < 32 \<and> getRegByName m name = Inr (BigInt (sreg m ! idx))) \<and>
   (startsWith dname ''$'' \<longrightarrow>
      getRegByName m dname = getReg m (parseInt (slice dname 1)) \<and> getRegByName m dname \<noteq> Inl e) \<and>
   (256 \<le> big \<longrightarrow> getRegByName m (''$'' @ toString (int big) 10) = Inr Undefined) \<and>
   (\<not> startsWith other ''$'' \<and> map_of SpecialReg other = None \<and> other \<notin> set Object_prototype_keys \<longrightarrow>
      getRegByName m other = Inl (UnknownRegister other))"
proof -
  assume r: "reachable m"
  then have len: "length (reg m) = 256" "length (sreg m) = 32"
    using reachable_inv by simp_all
  have g: "getRegByName m (''$'' @ toString (int k) 10) = Inr (BigInt (reg m ! k))" if "k < 256"
    using that len
    by (simp only: getRegByName_dollar toString_nat parseInt_digits getReg_def typed_get_in)
  have s: "idx < 32 \<and> getRegByName m name = Inr (BigInt (sreg m ! idx))"
    if "map_of SpecialReg name = Some idx"
    using SpecialReg_lookup [OF that] that len
    by (simp add: getRegByName_def getSpecialReg_def typed_get_in)
  have d: "getRegByName m dname = getReg m (parseInt (slice dname 1)) \<and> getRegByName m dname \<noteq> Inl e"
    if "startsWith dname ''$''"
    using that by (simp add: getRegByName_def getReg_def)
  have b: "getRegByName m (''$'' @ toString (int big) 10) = Inr Undefined" if "256 \<le> big"
    using that len
    by (simp only: getRegByName_dollar toString_nat parseInt_digits getReg_def) (simp add: typed_get_out)
  have o: "getRegByName m other = Inl (UnknownRegister other)"
    if "\<not> startsWith other ''$'' \<and> map_of SpecialReg other = None \<and> other \<notin> set Object_prototype_keys"
    using that by (simp add: getRegByName_def)
  from g s d b o show ?thesis by blast
qed

text \<open>The machine after \<open>setReg(42, 0x999)\<close>, asked for five names.\<close>

theorem getRegByName_cases_witness:
  "reachable (MMIX_new\<lparr>reg := (reg MMIX_new)[42 := 0x999]\<rparr>) \<and>
   getRegByName (MMIX_new\<lparr>reg := (reg MMIX_new)[42 := 0x999]\<rparr>) ''$42'' = Inr (BigInt 0x999) \<and>
   getRegByName (MMIX_new\<lparr>reg := (reg MMIX_new)[42 := 0x999]\<rparr>) ''rZZ'' = Inr (BigInt 0) \<and>
   getRegByName (MMIX_new\<lparr>reg := (reg MMIX_new)[42 := 0x999]\<rparr>) ''$256'' = Inr Undefined \<and>
   getRegByName (MMIX_new\<lparr>reg := (reg MMIX_new)[42 := 0x999]\<rparr>) ''$x'' = Inr Undefined \<and>
   getRegByName (MMIX_new\<lparr>reg := (reg MMIX_new)[42 := 0x999]\<rparr>) ''rQQ'' = Inl (UnknownRegister ''rQQ'')"
proof -
  let ?m = "MMIX_new\<lparr>reg := (reg MMIX_new)[42 := 0x999]\<rparr>"
  have st: "setReg MMIX_new (Number 42) (VBigInt 0x999) = Inr ?m"
    by (simp add: setReg_def typed_set_def MMIX_new_def)
  have r: "reachable ?m"
    using reachable.by_new st by (rule reachable.by_setReg)
  have e: "toString (int 42) 10 = ''42''" "toString (int 256) 10 = ''256''"
    by (simp_all add: format_eval)
  have l: "map_of SpecialReg ''rZZ'' = Some 31" "map_of SpecialReg ''rQQ'' = None"
    by (simp_all add: SpecialReg_def)
  have p: "parseInt (slice ''$x'' 1) = NaN"
    by (simp add: parseInt_def slice_def isWhiteSpace_def isDigit_def)
  have o: "\<not> startsWith ''rQQ'' ''$'' \<and> map_of SpecialReg ''rQQ'' = None \<and> ''rQQ'' \<notin> set Object_prototype_keys"
    using l by (simp add: startsWith_def Object_prototype_keys_def)
  have sw: "startsWith ''$x'' ''$''" by (simp add: startsWith_def)
  from getRegByName_cases [OF r, of 42 "''rZZ''" 31 "''$x''" OutOfRangeIndex 256 "''rQQ''"] r e l p o sw
  show ?thesis
    by (simp add: MMIX_new_def getReg_def typed_get_def)
qed

end
